theory Spec2Isabelle
  imports Main "HOL-Library.Word" "HOL-Library.Multiset"
begin

section \<open>Data model\<close>

text \<open>
  The service (cmd/main.go) is a read-only HTTP front end of the database \<open>firstDB\<close>.
  The handlers are embedded as functions of the request and of a \<open>world\<close>: the
  contents of the database, the driver calls that fail, and the log of driver calls made
  so far. The driver (go.mongodb.org/mongo-driver), the web framework (fiber) and the JSON
  encoder are libraries outside the repository; they are modelled by their documented
  contracts, stated at each definition.
\<close>

type_synonym ObjectID = "8 word list"

datatype bson_value =
    BObjectID ObjectID
  | BString string
  | BInt int
  | BBoolean bool
  | BNull
  | BDocument "(string \<times> bson_value) list"
  | BArray "bson_value list"

text \<open>A stored document: the BSON elements in their stored order.\<close>

type_synonym document = "(string \<times> bson_value) list"

text \<open>
  \<open>bson.M\<close> is a Go map from field name to value. It is held as an association list
  with distinct keys; the position of a key in the list is internal to the runtime and
  is seen by the program only through \<open>range\<close> (see \<open>range_keys\<close>) and never
  by the JSON encoder, which writes the keys of a map in sorted order (see \<open>marshal_M\<close>).
\<close>

type_synonym bsonM = "(string \<times> bson_value) list"

text \<open>
  The errors of the driver. \<open>mongo.ErrNoDocuments\<close> is the sentinel the handlers
  compare against; every other error is carried with its text.
\<close>

datatype error = ErrNoDocuments | DriverError string

fun Error :: "error \<Rightarrow> string" where
  "Error ErrNoDocuments = ''mongo: no documents in result''"
| "Error (DriverError msg) = msg"

text \<open>The driver calls a handler can make, as they appear in the log.\<close>

datatype db_call =
    ListCollectionNamesCall
  | FindCall string
  | NextCall string
  | DecodeCall string
  | AllCall string
  | CloseCall string
  | FindOneCall string ObjectID

record world =
  store :: "(string \<times> document list) list"
  failing :: "db_call \<Rightarrow> error option"
  calls :: "db_call list"

text \<open>
  The JSON text of a response is identified with the value the encoder is given:
  an array keeps the order of its slice, an object is a finite map (its keys are written
  sorted, so two Go maps with the same entries give the same bytes), and a field value
  of a document is a leaf.
\<close>

datatype json =
    JNull
  | JString string
  | JLeaf bson_value
  | JArray "json list"
  | JObject "string \<Rightarrow> json option"

datatype body = SendString string | JSON json

record response =
  status :: nat
  body :: body

section \<open>Identifier parsing\<close>

text \<open>
  \<open>primitive.ObjectIDFromHex\<close>: the string must have 24 bytes, which are decoded
  pairwise as hexadecimal digits (\<open>encoding/hex\<close> accepts both cases) into 12 bytes.
\<close>

definition fromHexChar :: "char \<Rightarrow> 8 word option" where
  "fromHexChar c =
     (let n = (of_char c :: nat) in
      if 48 \<le> n \<and> n \<le> 57 then Some (of_nat (n - 48))
      else if 97 \<le> n \<and> n \<le> 102 then Some (of_nat (n - 97 + 10))
      else if 65 \<le> n \<and> n \<le> 70 then Some (of_nat (n - 65 + 10))
      else None)"

fun hex_Decode :: "string \<Rightarrow> 8 word list option" where
  "hex_Decode [] = Some []"
| "hex_Decode [c] = None"
| "hex_Decode (a # b # rest) =
     (case fromHexChar a of
        None \<Rightarrow> None
      | Some hi \<Rightarrow>
          (case fromHexChar b of
             None \<Rightarrow> None
           | Some lo \<Rightarrow>
               (case hex_Decode rest of
                  None \<Rightarrow> None
                | Some bytes \<Rightarrow> Some ((16 * hi + lo) # bytes))))"

definition ObjectIDFromHex :: "string \<Rightarrow> ObjectID option" where
  "ObjectIDFromHex s = (if length s \<noteq> 24 then None else hex_Decode s)"

text \<open>The specification's notion: a 24-hex-character identifier.\<close>

definition is_hex_digit :: "char \<Rightarrow> bool" where
  "is_hex_digit c \<longleftrightarrow> c \<in> set ''0123456789abcdefABCDEF''"

definition valid_hex24 :: "string \<Rightarrow> bool" where
  "valid_hex24 s \<longleftrightarrow> length s = 24 \<and> list_all is_hex_digit s"

section \<open>The driver\<close>

definition record_call :: "db_call \<Rightarrow> world \<Rightarrow> world" where
  "record_call k w = w\<lparr>calls := calls w @ [k]\<rparr>"

text \<open>The documents of a collection in the order a find returns them; a name that
  is not in the database has none.\<close>

definition documents :: "world \<Rightarrow> string \<Rightarrow> document list" where
  "documents w c = (case map_of (store w) c of None \<Rightarrow> [] | Some ds \<Rightarrow> ds)"

text \<open>Decoding a document into a \<open>bson.M\<close> stores the elements one by one under
  their keys, a later element replacing an earlier one of the same key.\<close>

fun assign :: "string \<Rightarrow> bson_value \<Rightarrow> bsonM \<Rightarrow> bsonM" where
  "assign k v [] = [(k, v)]"
| "assign k v ((k', v') # m) = (if k = k' then (k, v) # m else (k', v') # assign k v m)"

definition Decode_M :: "document \<Rightarrow> bsonM" where
  "Decode_M d = foldl (\<lambda>m (k, v). assign k v m) [] d"

text \<open>The filter \<open>{"_id": oid}\<close>.\<close>

definition matches_id :: "ObjectID \<Rightarrow> document \<Rightarrow> bool" where
  "matches_id oid d \<longleftrightarrow> map_of d ''_id'' = Some (BObjectID oid)"

text \<open>\<open>Collection.FindOne(ctx, filter).Decode(&m)\<close>: the first matching document,
  \<open>ErrNoDocuments\<close> when there is none, or the error of the operation.\<close>

definition FindOne_Decode :: "string \<Rightarrow> ObjectID \<Rightarrow> world \<Rightarrow> (error + bsonM) \<times> world" where
  "FindOne_Decode c oid w =
     ((case failing w (FindOneCall c oid) of
         Some e \<Rightarrow> Inl e
       | None \<Rightarrow>
           (case filter (matches_id oid) (documents w c) of
              [] \<Rightarrow> Inl ErrNoDocuments
            | d # _ \<Rightarrow> Inr (Decode_M d))),
      record_call (FindOneCall c oid) w)"

section \<open>Responses\<close>

text \<open>\<open>c.Status(n).SendString(s)\<close> and \<open>c.JSON(v)\<close> (status 200 unless set).\<close>

definition Status_SendString :: "nat \<Rightarrow> string \<Rightarrow> response" where
  "Status_SendString n s = \<lparr>status = n, body = SendString s\<rparr>"

definition c_JSON :: "json \<Rightarrow> response" where
  "c_JSON j = \<lparr>status = 200, body = JSON j\<rparr>"

definition marshal_M :: "bsonM \<Rightarrow> json" where
  "marshal_M m = JObject (map_option JLeaf \<circ> map_of m)"

section \<open>The Get-by-ID handlers\<close>

definition customerCollection :: string where
  "customerCollection = ''customers''"

definition productCollection :: string where
  "productCollection = ''products''"

definition orderCollection :: string where
  "orderCollection = ''orders''"

definition getCustomerByID :: "string \<Rightarrow> world \<Rightarrow> response \<times> world" where
  "getCustomerByID ident w =
     (case ObjectIDFromHex ident of
        None \<Rightarrow> (Status_SendString 400 ''Invalid ID format'', w)
      | Some objectID \<Rightarrow>
          (case FindOne_Decode customerCollection objectID w of
             (Inl err, w') \<Rightarrow>
               if err = ErrNoDocuments then (Status_SendString 404 ''Customer not found'', w')
               else (Status_SendString 500 (''Error finding customer: '' @ Error err), w')
           | (Inr customer, w') \<Rightarrow> (c_JSON (marshal_M customer), w')))"

definition getProductByID :: "string \<Rightarrow> world \<Rightarrow> response \<times> world" where
  "getProductByID ident w =
     (case ObjectIDFromHex ident of
        None \<Rightarrow> (Status_SendString 400 ''Invalid ID format'', w)
      | Some objectID \<Rightarrow>
          (case FindOne_Decode productCollection objectID w of
             (Inl err, w') \<Rightarrow>
               if err = ErrNoDocuments then (Status_SendString 404 ''Product not found'', w')
               else (Status_SendString 500 (''Error finding product: '' @ Error err), w')
           | (Inr product, w') \<Rightarrow> (c_JSON (marshal_M product), w')))"

definition getOrderByID :: "string \<Rightarrow> world \<Rightarrow> response \<times> world" where
  "getOrderByID ident w =
     (case ObjectIDFromHex ident of
        None \<Rightarrow> (Status_SendString 400 ''Invalid ID format'', w)
      | Some objectID \<Rightarrow>
          (case FindOne_Decode orderCollection objectID w of
             (Inl err, w') \<Rightarrow>
               if err = ErrNoDocuments then (Status_SendString 404 ''Order not found'', w')
               else (Status_SendString 500 (''Error finding order: '' @ Error err), w')
           | (Inr order, w') \<Rightarrow> (c_JSON (marshal_M order), w')))"

text \<open>
  The three handlers differ in the collection and in the entity named in the messages.
  \<open>getByID\<close> is the one handler they are instances of: it takes the collection and
  the entity name, and derives both messages from the name.
\<close>

definition to_upper :: "char \<Rightarrow> char" where
  "to_upper c =
     (case map_of (zip ''abcdefghijklmnopqrstuvwxyz'' ''ABCDEFGHIJKLMNOPQRSTUVWXYZ'') c of
        None \<Rightarrow> c
      | Some u \<Rightarrow> u)"

definition capitalize :: "string \<Rightarrow> string" where
  "capitalize s = (case s of [] \<Rightarrow> [] | c # cs \<Rightarrow> to_upper c # cs)"

definition getByID :: "string \<Rightarrow> string \<Rightarrow> string \<Rightarrow> world \<Rightarrow> response \<times> world" where
  "getByID collection entity ident w =
     (case ObjectIDFromHex ident of
        None \<Rightarrow> (Status_SendString 400 ''Invalid ID format'', w)
      | Some objectID \<Rightarrow>
          (case FindOne_Decode collection objectID w of
             (Inl err, w') \<Rightarrow>
               if err = ErrNoDocuments
               then (Status_SendString 404 (capitalize entity @ '' not found''), w')
               else (Status_SendString 500 (''Error finding '' @ entity @ '': '' @ Error err), w')
           | (Inr m, w') \<Rightarrow> (c_JSON (marshal_M m), w')))"

section \<open>Cursors\<close>

text \<open>
  A cursor over the documents of a collection. \<open>Find\<close> with the empty filter matches
  every document. \<open>Next\<close> returns false both when the documents are exhausted and when
  fetching fails; in the second case the error stays in the cursor (\<open>cursor.Err()\<close>).
\<close>

record cursor =
  coll :: string
  batch :: "document list"
  Current :: "document option"
  Err :: "error option"

definition Find :: "string \<Rightarrow> world \<Rightarrow> (error + cursor) \<times> world" where
  "Find c w =
     ((case failing w (FindCall c) of
         Some e \<Rightarrow> Inl e
       | None \<Rightarrow> Inr \<lparr>coll = c, batch = documents w c, Current = None, Err = None\<rparr>),
      record_call (FindCall c) w)"

definition Next :: "cursor \<Rightarrow> world \<Rightarrow> (bool \<times> cursor) \<times> world" where
  "Next cur w =
     ((case failing w (NextCall (coll cur)) of
         Some e \<Rightarrow> (False, cur\<lparr>Err := Some e\<rparr>)
       | None \<Rightarrow>
           (case batch cur of
              [] \<Rightarrow> (False, cur)
            | d # ds \<Rightarrow> (True, cur\<lparr>batch := ds, Current := Some d\<rparr>))),
      record_call (NextCall (coll cur)) w)"

text \<open>\<open>cursor.Decode(&result)\<close> decodes the current document (an error when there
  is none; the handlers decode only after \<open>Next\<close> returned true).\<close>

definition Decode :: "cursor \<Rightarrow> world \<Rightarrow> (error + bsonM) \<times> world" where
  "Decode cur w =
     ((case failing w (DecodeCall (coll cur)) of
         Some e \<Rightarrow> Inl e
       | None \<Rightarrow>
           (case Current cur of
              None \<Rightarrow> Inl (DriverError ''EOF'')
            | Some d \<Rightarrow> Inr (Decode_M d))),
      record_call (DecodeCall (coll cur)) w)"

text \<open>
  A Go slice is a list or \<open>nil\<close> (\<open>None\<close>). \<open>cursor.All(ctx, &results)\<close> decodes
  every remaining document and overwrites the slice with them; as the driver documents,
  a \<open>nil\<close> slice is not modified when the cursor is empty.
\<close>

definition All :: "cursor \<Rightarrow> bsonM list option \<Rightarrow> world \<Rightarrow> (error option \<times> bsonM list option) \<times> world" where
  "All cur results w =
     ((case failing w (AllCall (coll cur)) of
         Some e \<Rightarrow> (Some e, results)
       | None \<Rightarrow>
           (None,
            (case batch cur of
               [] \<Rightarrow> (case results of None \<Rightarrow> None | Some _ \<Rightarrow> Some [])
             | d # ds \<Rightarrow> Some (map Decode_M (d # ds))))),
      record_call (AllCall (coll cur)) w)"

text \<open>\<open>cursor.Close\<close>; the handlers defer it and drop its error.\<close>

definition Close :: "cursor \<Rightarrow> world \<Rightarrow> world" where
  "Close cur w = record_call (CloseCall (coll cur)) w"

text \<open>The encoder (\<open>encoding/json\<close>) writes a \<open>nil\<close> slice as \<open>null\<close> and any
  other slice as an array.\<close>

definition marshal_slice_M :: "bsonM list option \<Rightarrow> json" where
  "marshal_slice_M s = (case s of None \<Rightarrow> JNull | Some ms \<Rightarrow> JArray (map marshal_M ms))"

section \<open>The list handlers\<close>

definition getAllCustomers :: "world \<Rightarrow> response \<times> world" where
  "getAllCustomers w =
     (case Find customerCollection w of
        (Inl err, w1) \<Rightarrow> (Status_SendString 500 (Error err), w1)
      | (Inr cursor, w1) \<Rightarrow>
          (case All cursor None w1 of
             ((Some err, customers), w2) \<Rightarrow> (Status_SendString 500 (Error err), Close cursor w2)
           | ((None, customers), w2) \<Rightarrow> (c_JSON (marshal_slice_M customers), Close cursor w2)))"

definition getAllProducts :: "world \<Rightarrow> response \<times> world" where
  "getAllProducts w =
     (case Find productCollection w of
        (Inl err, w1) \<Rightarrow> (Status_SendString 500 (Error err), w1)
      | (Inr cursor, w1) \<Rightarrow>
          (case All cursor None w1 of
             ((Some err, products), w2) \<Rightarrow> (Status_SendString 500 (Error err), Close cursor w2)
           | ((None, products), w2) \<Rightarrow> (c_JSON (marshal_slice_M products), Close cursor w2)))"

definition getAllOrders :: "world \<Rightarrow> response \<times> world" where
  "getAllOrders w =
     (case Find orderCollection w of
        (Inl err, w1) \<Rightarrow> (Status_SendString 500 (Error err), w1)
      | (Inr cursor, w1) \<Rightarrow>
          (case All cursor None w1 of
             ((Some err, orders), w2) \<Rightarrow> (Status_SendString 500 (Error err), Close cursor w2)
           | ((None, orders), w2) \<Rightarrow> (c_JSON (marshal_slice_M orders), Close cursor w2)))"

section \<open>listFields\<close>

definition ListCollectionNames :: "world \<Rightarrow> (error + string list) \<times> world" where
  "ListCollectionNames w =
     ((case failing w ListCollectionNamesCall of
         Some e \<Rightarrow> Inl e
       | None \<Rightarrow> Inr (map fst (store w))),
      record_call ListCollectionNamesCall w)"

text \<open>
  \<open>for key := range result\<close> visits every key of the map once, in an order the Go
  runtime chooses anew for each loop. The choice is a parameter of an execution: a
  function that, for the loop of a collection, permutes the keys of the map.
\<close>

type_synonym range_order = "string \<Rightarrow> string list \<Rightarrow> string list"

definition permutes_keys :: "range_order \<Rightarrow> bool" where
  "permutes_keys ord \<longleftrightarrow> (\<forall>c ks. mset (ord c ks) = mset ks)"

definition range_keys :: "range_order \<Rightarrow> string \<Rightarrow> bsonM \<Rightarrow> string list" where
  "range_keys ord c m = ord c (map fst m)"

text \<open>\<open>fields[collection] = append(fields[collection], key)\<close>: a missing entry
  reads as the \<open>nil\<close> slice.\<close>

definition append_field :: "string \<Rightarrow> (string \<Rightarrow> string list option) \<Rightarrow> string \<Rightarrow> (string \<Rightarrow> string list option)" where
  "append_field collection flds key =
     flds(collection \<mapsto> (case flds collection of None \<Rightarrow> [] | Some ks \<Rightarrow> ks) @ [key])"

text \<open>The loop over the collection names. It returns the error of an early return or
  the field listing, with the cursors whose \<open>Close\<close> is deferred (last opened first).\<close>

fun listFields_loop ::
  "range_order \<Rightarrow> string list \<Rightarrow> (string \<Rightarrow> string list option) \<Rightarrow> cursor list \<Rightarrow> world
     \<Rightarrow> (error + (string \<Rightarrow> string list option)) \<times> cursor list \<times> world" where
  "listFields_loop ord [] flds deferred w = (Inr flds, deferred, w)"
| "listFields_loop ord (collection # rest) flds deferred w =
     (case Find collection w of
        (Inl err, w1) \<Rightarrow> (Inl err, deferred, w1)
      | (Inr cursor, w1) \<Rightarrow>
          (case Next cursor w1 of
             ((has_next, cursor'), w2) \<Rightarrow>
               if has_next then
                 (case Decode cursor' w2 of
                    (Inl err, w3) \<Rightarrow> (Inl err, cursor # deferred, w3)
                  | (Inr result, w3) \<Rightarrow>
                      listFields_loop ord rest
                        (foldl (append_field collection) flds (range_keys ord collection result))
                        (cursor # deferred) w3)
               else listFields_loop ord rest flds (cursor # deferred) w2))"

definition run_deferred :: "cursor list \<Rightarrow> world \<Rightarrow> world" where
  "run_deferred deferred w = foldl (\<lambda>w' cur. Close cur w') w deferred"

definition marshal_fields :: "(string \<Rightarrow> string list option) \<Rightarrow> json" where
  "marshal_fields flds = JObject (map_option (\<lambda>ks. JArray (map JString ks)) \<circ> flds)"

definition listFields :: "range_order \<Rightarrow> world \<Rightarrow> response \<times> world" where
  "listFields ord w =
     (case ListCollectionNames w of
        (Inl err, w1) \<Rightarrow> (Status_SendString 500 (Error err), w1)
      | (Inr collections, w1) \<Rightarrow>
          (case listFields_loop ord collections Map.empty [] w1 of
             (Inl err, deferred, w2) \<Rightarrow>
               (Status_SendString 500 (Error err), run_deferred deferred w2)
           | (Inr flds, deferred, w2) \<Rightarrow>
               (c_JSON (marshal_fields flds), run_deferred deferred w2)))"

section \<open>The route table\<close>

datatype request =
    GET_fields
  | GET_customers
  | GET_customer string
  | GET_products
  | GET_product string
  | GET_orders
  | GET_order string

fun serve :: "range_order \<Rightarrow> request \<Rightarrow> world \<Rightarrow> response \<times> world" where
  "serve ord GET_fields w = listFields ord w"
| "serve ord GET_customers w = getAllCustomers w"
| "serve ord (GET_customer ident) w = getCustomerByID ident w"
| "serve ord GET_products w = getAllProducts w"
| "serve ord (GET_product ident) w = getProductByID ident w"
| "serve ord GET_orders w = getAllOrders w"
| "serve ord (GET_order ident) w = getOrderByID ident w"

section \<open>Startup\<close>

text \<open>
  What \<open>main\<close> meets at startup: the outcome of each library call (\<open>None\<close> is
  success, otherwise the error text), the parsed \<open>../.devcontainer/.env\<close> file
  (\<open>None\<close> when it cannot be read), and the environment of the process.
\<close>

record startup =
  zap_NewProduction :: "string option"
  env_file :: "(string \<times> string) list option"
  environ :: "string \<Rightarrow> string option"
  mongo_Connect :: "string option"
  RunCommand_ping :: "string option"
  app_Listen :: "string option"
  client_Disconnect :: "string option"

text \<open>What the process does that can be seen from outside, in order.\<close>

datatype event =
    Printf string
  | log_Fatalf string
  | logger_Fatal string
  | logger_Info string
  | logger_Error string
  | Connect string
  | Ping
  | Listen string
  | Disconnect
  | Sync

text \<open>\<open>godotenv.Load\<close> sets the variables of the file that the environment does
  not have yet; \<open>os.Getenv\<close> reads an unset variable as the empty string.\<close>

definition godotenv_Load :: "(string \<times> string) list \<Rightarrow> (string \<Rightarrow> string option) \<Rightarrow> (string \<Rightarrow> string option)" where
  "godotenv_Load kvs env = (\<lambda>k. case env k of Some v \<Rightarrow> Some v | None \<Rightarrow> map_of (rev kvs) k)"

definition Getenv :: "(string \<Rightarrow> string option) \<Rightarrow> string \<Rightarrow> string" where
  "Getenv env k = (case env k of None \<Rightarrow> [] | Some v \<Rightarrow> v)"

text \<open>config.LoadEnv: \<open>Inl\<close> is the fatal exit of \<open>log.Fatalf\<close>.\<close>

definition LoadEnv :: "startup \<Rightarrow> event + (string \<Rightarrow> string option)" where
  "LoadEnv s =
     (case env_file s of
        None \<Rightarrow> Inl (log_Fatalf ''Error loading .env file'')
      | Some kvs \<Rightarrow> Inr (godotenv_Load kvs (environ s)))"

definition GetMongoDB_URL :: "(string \<Rightarrow> string option) \<Rightarrow> string" where
  "GetMongoDB_URL env = Getenv env ''MONGODB_URL''"

text \<open>
  \<open>main\<close>, as the events of the process and its exit status. \<open>os.Exit(1)\<close>,
  \<open>log.Fatalf\<close> and \<open>logger.Fatal\<close> end the process with status 1 and run no
  deferred call. \<open>Listen\<close> is the call that binds the port and serves the routes; the
  handlers run only inside it.
\<close>

definition main :: "startup \<Rightarrow> event list \<times> nat" where
  "main s =
     (case zap_NewProduction s of
        Some err \<Rightarrow> ([Printf (''Failed to set up zap logger: '' @ err @ [CHR 0x0A])], 1)
      | None \<Rightarrow>
          (case LoadEnv s of
             Inl fatal \<Rightarrow> ([fatal], 1)
           | Inr env \<Rightarrow>
               (let mongoURI = GetMongoDB_URL env in
                if mongoURI = [] then
                  ([logger_Fatal ''Environment variable for MongoDB URL is not set.''], 1)
                else
                  (case mongo_Connect s of
                     Some err \<Rightarrow>
                       ([Connect mongoURI, logger_Fatal ''Failed to connect to MongoDB.''], 1)
                   | None \<Rightarrow>
                       (case RunCommand_ping s of
                          Some err \<Rightarrow>
                            ([Connect mongoURI, Ping, logger_Fatal ''Failed to ping MongoDB.''], 1)
                        | None \<Rightarrow>
                            (case app_Listen s of
                               Some err \<Rightarrow>
                                 ([Connect mongoURI, Ping,
                                   logger_Info ''Successfully connected to MongoDB.'',
                                   Listen '':8090'',
                                   logger_Fatal ''Failed to start server.''], 1)
                             | None \<Rightarrow>
                                 ([Connect mongoURI, Ping,
                                   logger_Info ''Successfully connected to MongoDB.'',
                                   Listen '':8090'', Disconnect]
                                  @ (case client_Disconnect s of
                                       Some err \<Rightarrow> [logger_Error ''Failed to disconnect from MongoDB.'']
                                     | None \<Rightarrow> [])
                                  @ [Sync], 0)))))))"

section \<open>Specification notions and example inputs\<close>

text \<open>No driver call fails.\<close>

definition no_failure :: "db_call \<Rightarrow> error option" where
  "no_failure = (\<lambda>k. None)"

text \<open>The database keeps collection names unique and gives every stored document
  an \<open>_id\<close> element.\<close>

definition well_formed :: "(string \<times> document list) list \<Rightarrow> bool" where
  "well_formed st \<longleftrightarrow>
     distinct (map fst st) \<and>
     list_all (\<lambda>(c, ds). list_all (\<lambda>d. ''_id'' \<in> set (map fst d)) ds) st"

text \<open>Two field listings with the same keys and, under each key, the same names up
  to their order.\<close>

definition same_listing :: "(string \<Rightarrow> string list option) \<Rightarrow> (string \<Rightarrow> string list option) \<Rightarrow> bool" where
  "same_listing f g \<longleftrightarrow> (\<forall>c. rel_option (\<lambda>xs ys. mset xs = mset ys) (f c) (g c))"

text \<open>Two bodies that are equal, or are JSON objects with the same keys whose arrays
  hold the same elements in a possibly different order.\<close>

definition same_elements :: "json option \<Rightarrow> json option \<Rightarrow> bool" where
  "same_elements a b =
     (case (a, b) of
        (None, None) \<Rightarrow> True
      | (Some (JArray xs), Some (JArray ys)) \<Rightarrow> mset xs = mset ys
      | _ \<Rightarrow> False)"

definition same_up_to_field_order :: "body \<Rightarrow> body \<Rightarrow> bool" where
  "same_up_to_field_order b1 b2 =
     (case (b1, b2) of
        (JSON (JObject f), JSON (JObject g)) \<Rightarrow> (\<forall>c. same_elements (f c) (g c))
      | _ \<Rightarrow> b1 = b2)"

text \<open>Two choices of the runtime for \<open>range\<close>: the keys as held, and reversed.\<close>

definition as_held :: range_order where
  "as_held = (\<lambda>c ks. ks)"

definition reversed :: range_order where
  "reversed = (\<lambda>c ks. rev ks)"

text \<open>The database of the specification's end-to-end scenario: one customer.\<close>

definition alice_id :: ObjectID where
  "alice_id = [0x50, 0x7f, 0x1f, 0x77, 0xbc, 0xf8, 0x6c, 0xd7, 0x99, 0x43, 0x90, 0x11]"

definition alice :: document where
  "alice = [(''_id'', BObjectID alice_id), (''name'', BString ''Alice'')]"

definition scenario :: world where
  "scenario =
     \<lparr>store = [(''customers'', [alice]), (''products'', []), (''orders'', [])],
      failing = no_failure, calls = []\<rparr>"

text \<open>The same database when the connection breaks: every \<open>FindOne\<close> fails, or
  every \<open>Next\<close> fails.\<close>

definition FindOne_fails :: "db_call \<Rightarrow> error option" where
  "FindOne_fails = (\<lambda>k. case k of FindOneCall c oid \<Rightarrow> Some (DriverError ''connection reset'') | _ \<Rightarrow> None)"

definition Next_fails :: "db_call \<Rightarrow> error option" where
  "Next_fails = (\<lambda>k. case k of NextCall c \<Rightarrow> Some (DriverError ''connection reset'') | _ \<Rightarrow> None)"

definition scenario_FindOne_fails :: world where
  "scenario_FindOne_fails = scenario\<lparr>failing := FindOne_fails\<rparr>"

definition scenario_Next_fails :: world where
  "scenario_Next_fails = scenario\<lparr>failing := Next_fails\<rparr>"

text \<open>Two startups: the \<open>.env\<close> file cannot be read; the file is read but neither it
  nor the environment sets \<open>MONGODB_URL\<close>.\<close>

definition startup_no_file :: startup where
  "startup_no_file =
     \<lparr>zap_NewProduction = None, env_file = None,
      environ = [''MONGODB_URL'' \<mapsto> ''mongodb://localhost:27017''],
      mongo_Connect = None, RunCommand_ping = None, app_Listen = None,
      client_Disconnect = None\<rparr>"

definition startup_no_url :: startup where
  "startup_no_url =
     \<lparr>zap_NewProduction = None, env_file = Some [(''PORT'', ''8090'')],
      environ = Map.empty,
      mongo_Connect = None, RunCommand_ping = None, app_Listen = None,
      client_Disconnect = None\<rparr>"

text \<open>The database with its three collections and no document.\<close>

definition no_documents :: world where
  "no_documents =
     \<lparr>store = [(''customers'', []), (''products'', []), (''orders'', [])],
      failing = no_failure, calls = []\<rparr>"

section \<open>Identifier parsing agrees with the specification's notion\<close>

lemma fromHexChar_None_iff: "fromHexChar c = None \<longleftrightarrow> \<not> is_hex_digit c"
  by (cases c) (simp add: fromHexChar_def is_hex_digit_def Let_def)

lemma hex_Decode_None_iff:
  "hex_Decode s = None \<longleftrightarrow> odd (length s) \<or> \<not> list_all is_hex_digit s"
proof (induction s rule: hex_Decode.induct)
  case (3 a b rest)
  then show ?case
    using fromHexChar_None_iff [of a] fromHexChar_None_iff [of b]
    by (auto split: option.splits)
qed simp_all

lemma ObjectIDFromHex_None_iff: "ObjectIDFromHex s = None \<longleftrightarrow> \<not> valid_hex24 s"
  by (auto simp: ObjectIDFromHex_def valid_hex24_def hex_Decode_None_iff)

lemma ObjectIDFromHex_absent:
  "ObjectIDFromHex ''507f1f77bcf86cd799439099''
     = Some [0x50, 0x7f, 0x1f, 0x77, 0xbc, 0xf8, 0x6c, 0xd7, 0x99, 0x43, 0x90, 0x99]"
  by (simp add: ObjectIDFromHex_def fromHexChar_def)

lemma valid_hex24_absent: "valid_hex24 ''507f1f77bcf86cd799439099''"
  by (simp add: valid_hex24_def is_hex_digit_def)

lemma ObjectIDFromHex_alice: "ObjectIDFromHex ''507f1f77bcf86cd799439011'' = Some alice_id"
  by (simp add: ObjectIDFromHex_def fromHexChar_def alice_id_def)

section \<open>The Get-by-ID handlers as instances of one handler\<close>

lemma capitalize_entities:
  "capitalize ''customer'' = ''Customer''"
  "capitalize ''product'' = ''Product''"
  "capitalize ''order'' = ''Order''"
  by (simp_all add: capitalize_def to_upper_def)

lemma getCustomerByID_getByID: "getCustomerByID = getByID customerCollection ''customer''"
  by (intro ext)
     (simp add: getCustomerByID_def getByID_def capitalize_entities
        split: option.splits sum.splits prod.splits)

lemma getProductByID_getByID: "getProductByID = getByID productCollection ''product''"
  by (intro ext)
     (simp add: getProductByID_def getByID_def capitalize_entities
        split: option.splits sum.splits prod.splits)

lemma getOrderByID_getByID: "getOrderByID = getByID orderCollection ''order''"
  by (intro ext)
     (simp add: getOrderByID_def getByID_def capitalize_entities
        split: option.splits sum.splits prod.splits)

lemma getByID_not_found:
  assumes "ObjectIDFromHex ident = Some oid"
    and "fst (FindOne_Decode c oid w) = Inl ErrNoDocuments"
  shows "fst (getByID c entity ident w)
           = \<lparr>status = 404, body = SendString (capitalize entity @ '' not found'')\<rparr>"
  using assms
  by (cases "FindOne_Decode c oid w") (simp add: getByID_def Status_SendString_def)

lemma getByID_other_error:
  assumes "ObjectIDFromHex ident = Some oid"
    and "fst (FindOne_Decode c oid w) = Inl e" and "e \<noteq> ErrNoDocuments"
  shows "fst (getByID c entity ident w)
           = \<lparr>status = 500, body = SendString (''Error finding '' @ entity @ '': '' @ Error e)\<rparr>"
  using assms
  by (cases "FindOne_Decode c oid w") (simp add: getByID_def Status_SendString_def)

lemma FindOne_Decode_no_match:
  assumes "failing w (FindOneCall c oid) = None"
    and "list_all (\<lambda>d. \<not> matches_id oid d) (documents w c)"
  shows "fst (FindOne_Decode c oid w) = Inl ErrNoDocuments"
proof -
  from assms(2) have "filter (matches_id oid) (documents w c) = []"
    by (simp add: filter_empty_conv list_all_iff)
  with assms(1) show ?thesis
    by (simp add: FindOne_Decode_def)
qed

section \<open>The driver calls only extend the log\<close>

lemma record_call_simps [simp]:
  "store (record_call k w) = store w"
  "failing (record_call k w) = failing w"
  "calls (record_call k w) = calls w @ [k]"
  by (simp_all add: record_call_def)

lemma documents_record_call [simp]: "documents (record_call k w) = documents w"
  by (simp add: documents_def fun_eq_iff)

lemma snd_Find [simp]: "snd (Find c w) = record_call (FindCall c) w"
  by (simp add: Find_def)

lemma snd_Next [simp]: "snd (Next cur w) = record_call (NextCall (coll cur)) w"
  by (simp add: Next_def)

lemma snd_Decode [simp]: "snd (Decode cur w) = record_call (DecodeCall (coll cur)) w"
  by (simp add: Decode_def)

lemma snd_All [simp]: "snd (All cur r w) = record_call (AllCall (coll cur)) w"
  by (simp add: All_def)

lemma snd_FindOne_Decode [simp]:
  "snd (FindOne_Decode c oid w) = record_call (FindOneCall c oid) w"
  by (simp add: FindOne_Decode_def)

lemma snd_ListCollectionNames [simp]:
  "snd (ListCollectionNames w) = record_call ListCollectionNamesCall w"
  by (simp add: ListCollectionNames_def)

lemma store_Close [simp]: "store (Close cur w) = store w"
  by (simp add: Close_def)

lemma store_run_deferred [simp]: "store (run_deferred ds w) = store w"
  unfolding run_deferred_def by (induction ds arbitrary: w) simp_all

lemma Find_world: "Find c w = (r, w') \<Longrightarrow> w' = record_call (FindCall c) w"
  using snd_Find [of c w] by simp

lemma All_world: "All cur rs w = (r, w') \<Longrightarrow> w' = record_call (AllCall (coll cur)) w"
  using snd_All [of cur rs w] by simp

lemma FindOne_Decode_world:
  "FindOne_Decode c oid w = (r, w') \<Longrightarrow> w' = record_call (FindOneCall c oid) w"
  using snd_FindOne_Decode [of c oid w] by simp

lemma store_getByID: "store (snd (getByID c entity ident w)) = store w"
  by (auto simp: getByID_def split: option.splits prod.splits sum.splits
      dest!: FindOne_Decode_world)

lemma store_getAllCustomers: "store (snd (getAllCustomers w)) = store w"
  by (auto simp: getAllCustomers_def split: option.splits prod.splits sum.splits
      dest!: Find_world All_world)

lemma store_getAllProducts: "store (snd (getAllProducts w)) = store w"
  by (auto simp: getAllProducts_def split: option.splits prod.splits sum.splits
      dest!: Find_world All_world)

lemma store_getAllOrders: "store (snd (getAllOrders w)) = store w"
  by (auto simp: getAllOrders_def split: option.splits prod.splits sum.splits
      dest!: Find_world All_world)

lemma store_listFields_loop:
  "store (snd (snd (listFields_loop ord cs flds ds w))) = store w"
proof (induction cs arbitrary: flds ds w)
  case Nil
  then show ?case by simp
next
  case (Cons c cs)
  obtain r1 w1 where f: "Find c w = (r1, w1)" by (cases "Find c w")
  then have s1: "store w1 = store w" using snd_Find [of c w] by simp
  show ?case
  proof (cases r1)
    case (Inl e)
    with f s1 show ?thesis by simp
  next
    case (Inr cur)
    obtain b cur' w2 where n: "Next cur w1 = ((b, cur'), w2)" by (cases "Next cur w1") auto
    then have s2: "store w2 = store w" using snd_Next [of cur w1] s1 by simp
    show ?thesis
    proof (cases b)
      case False
      with f Inr n s2 Cons.IH show ?thesis by simp
    next
      case True
      obtain r3 w3 where d: "Decode cur' w2 = (r3, w3)" by (cases "Decode cur' w2")
      then have s3: "store w3 = store w" using snd_Decode [of cur' w2] s2 by simp
      show ?thesis
        using f Inr n True d s3 Cons.IH by (cases r3) simp_all
    qed
  qed
qed

lemma store_listFields: "store (snd (listFields ord w)) = store w"
proof -
  obtain r1 w1 where l: "ListCollectionNames w = (r1, w1)" by (cases "ListCollectionNames w")
  then have s1: "store w1 = store w" using snd_ListCollectionNames [of w] by simp
  show ?thesis
  proof (cases r1)
    case (Inl e)
    with l s1 show ?thesis by (simp add: listFields_def)
  next
    case (Inr cs)
    obtain r ds w2 where lp: "listFields_loop ord cs Map.empty [] w1 = (r, ds, w2)"
      by (cases "listFields_loop ord cs Map.empty [] w1") auto
    then have "store w2 = store w"
      using store_listFields_loop [of ord cs Map.empty "[]" w1] s1 by simp
    with l Inr lp show ?thesis
      by (cases r) (simp_all add: listFields_def)
  qed
qed

section \<open>Decoding and the field loop\<close>

lemma map_fst_assign:
  "map fst (assign k v m) = (if k \<in> fst ` set m then map fst m else map fst m @ [k])"
  by (induction m) (auto simp: rev_image_eqI)

lemma keys_assign: "fst ` set (assign k v m) = insert k (fst ` set m)"
  using arg_cong [OF map_fst_assign [of k v m], of set] by (auto simp del: assign.simps)

lemma distinct_assign: "distinct (map fst m) \<Longrightarrow> distinct (map fst (assign k v m))"
  by (simp add: map_fst_assign)

lemma keys_foldl_assign:
  "fst ` set (foldl (\<lambda>m (k, v). assign k v m) acc d) = fst ` set acc \<union> fst ` set d"
proof (induction d arbitrary: acc)
  case Nil
  then show ?case by simp
next
  case (Cons kv d)
  obtain k v where kv: "kv = (k, v)" by (cases kv)
  show ?case
    by (simp add: kv Cons.IH keys_assign)
qed

lemma distinct_foldl_assign:
  "distinct (map fst acc) \<Longrightarrow> distinct (map fst (foldl (\<lambda>m (k, v). assign k v m) acc d))"
proof (induction d arbitrary: acc)
  case Nil
  then show ?case by simp
next
  case (Cons kv d)
  obtain k v where kv: "kv = (k, v)" by (cases kv)
  show ?case
    using Cons.prems by (simp add: kv Cons.IH distinct_assign)
qed

lemma keys_Decode_M: "fst ` set (Decode_M d) = fst ` set d"
  by (simp add: Decode_M_def keys_foldl_assign)

lemma distinct_Decode_M: "distinct (map fst (Decode_M d))"
  by (simp add: Decode_M_def distinct_foldl_assign)

lemma foldl_append_field:
  "foldl (append_field c) f ks =
     (if ks = [] then f else f(c \<mapsto> (case f c of None \<Rightarrow> [] | Some xs \<Rightarrow> xs) @ ks))"
proof (induction ks arbitrary: f)
  case Nil
  then show ?case by simp
next
  case (Cons k ks)
  show ?case
    by (simp only: foldl_Cons Cons.IH) (auto simp: append_field_def fun_eq_iff)
qed

lemma permutes_keysD: "permutes_keys ord \<Longrightarrow> mset (ord c ks) = mset ks"
  by (simp add: permutes_keys_def)

lemma range_keys_set: "permutes_keys ord \<Longrightarrow> set (range_keys ord c m) = fst ` set m"
  unfolding range_keys_def using permutes_keysD [of ord c "map fst m"]
  by (metis set_mset_mset set_map)

lemma range_keys_distinct:
  "permutes_keys ord \<Longrightarrow> distinct (range_keys ord c m) = distinct (map fst m)"
  unfolding range_keys_def using permutes_keysD [of ord c "map fst m"] by (metis mset_eq_imp_distinct_iff)

lemma range_keys_mset:
  "permutes_keys o1 \<Longrightarrow> permutes_keys o2 \<Longrightarrow> mset (range_keys o1 c m) = mset (range_keys o2 c m)"
  by (simp add: range_keys_def permutes_keysD)

lemma listFields_loop_no_failure:
  assumes "failing w = no_failure" and "distinct cs"
    and "\<forall>c\<in>set cs. flds c = None"
    and "\<forall>c\<in>set cs. \<forall>d ds. documents w c = d # ds \<longrightarrow> range_keys ord c (Decode_M d) \<noteq> []"
  shows "fst (listFields_loop ord cs flds deferred w) =
           Inr (\<lambda>c. if c \<in> set cs
                     then (case documents w c of
                             [] \<Rightarrow> None
                           | d # _ \<Rightarrow> Some (range_keys ord c (Decode_M d)))
                     else flds c)"
  using assms
proof (induction cs arbitrary: flds deferred w)
  case Nil
  then show ?case by simp
next
  case (Cons c cs)
  show ?case
  proof (cases "documents w c")
    case Nil
    have "fst (listFields_loop ord (c # cs) flds deferred w)
            = fst (listFields_loop ord cs flds
                (\<lparr>coll = c, batch = [], Current = None, Err = None\<rparr> # deferred)
                (record_call (NextCall c) (record_call (FindCall c) w)))"
      using Cons.prems(1) Nil by (simp add: Find_def Next_def no_failure_def)
    also have "\<dots> = Inr (\<lambda>c'. if c' \<in> set cs
                     then (case documents w c' of
                             [] \<Rightarrow> None
                           | d # _ \<Rightarrow> Some (range_keys ord c' (Decode_M d)))
                     else flds c')"
      using Cons.prems by (subst Cons.IH) (simp_all cong: if_cong)
    finally show ?thesis
      using Nil Cons.prems(3) by (auto simp: fun_eq_iff)
  next
    case (Cons d ds)
    let ?ks = "range_keys ord c (Decode_M d)"
    have ks: "?ks \<noteq> []" using Cons.prems(4) Cons by simp
    have none: "flds c = None" using Cons.prems(3) by simp
    let ?flds = "flds(c \<mapsto> ?ks)"
    have "fst (listFields_loop ord (c # cs) flds deferred w)
            = fst (listFields_loop ord cs ?flds
                (\<lparr>coll = c, batch = d # ds, Current = None, Err = None\<rparr> # deferred)
                (record_call (DecodeCall c) (record_call (NextCall c) (record_call (FindCall c) w))))"
      using Cons.prems(1) Cons ks none
      by (simp add: Find_def Next_def Decode_def no_failure_def foldl_append_field)
    also have "\<dots> = Inr (\<lambda>c'. if c' \<in> set cs
                     then (case documents w c' of
                             [] \<Rightarrow> None
                           | d # _ \<Rightarrow> Some (range_keys ord c' (Decode_M d)))
                     else ?flds c')"
      using Cons.prems by (subst Cons.IH) (auto cong: if_cong)
    finally show ?thesis
      using Cons by (auto simp: fun_eq_iff)
  qed
qed

lemma well_formed_first_document:
  assumes "well_formed (store w)" and "documents w c = d # ds"
  shows "''_id'' \<in> fst ` set d"
proof -
  from assms(2) have "map_of (store w) c = Some (d # ds)"
    by (auto simp: documents_def split: option.splits)
  then have "(c, d # ds) \<in> set (store w)"
    by (rule map_of_SomeD)
  with assms(1) show ?thesis
    by (auto simp: well_formed_def list_all_iff)
qed

lemma documents_outside_store:
  "c \<notin> set (map fst (store w)) \<Longrightarrow> documents w c = []"
  by (simp add: documents_def map_of_eq_None_iff [THEN iffD2])

lemma permutes_keys_reversed: "permutes_keys reversed"
  by (simp add: permutes_keys_def reversed_def)

lemma permutes_keys_as_held: "permutes_keys as_held"
  by (simp add: permutes_keys_def as_held_def)

lemma well_formed_scenario: "well_formed (store scenario)"
  by (simp add: well_formed_def scenario_def alice_def)

lemma failing_scenario: "failing scenario = no_failure"
  by (simp add: scenario_def)

lemma listFields_scenario:
  "fst (listFields reversed scenario)
     = \<lparr>status = 200, body = JSON (marshal_fields [''customers'' \<mapsto> [''name'', ''_id'']])\<rparr>"
  by (simp add: listFields_def ListCollectionNames_def scenario_def no_failure_def Find_def
      Next_def Decode_def documents_def record_call_def alice_def Decode_M_def range_keys_def
      reversed_def append_field_def c_JSON_def)

lemma listFields_scenario_as_held:
  "fst (listFields as_held scenario)
     = \<lparr>status = 200, body = JSON (marshal_fields [''customers'' \<mapsto> [''_id'', ''name'']])\<rparr>"
  by (simp add: listFields_def ListCollectionNames_def scenario_def no_failure_def Find_def
      Next_def Decode_def documents_def record_call_def alice_def Decode_M_def range_keys_def
      as_held_def append_field_def c_JSON_def)

lemma getAll_documents:
  assumes "failing w = no_failure"
  shows "documents w customerCollection \<noteq> [] \<Longrightarrow>
           fst (getAllCustomers w) =
             \<lparr>status = 200,
              body = JSON (JArray (map (marshal_M \<circ> Decode_M) (documents w customerCollection)))\<rparr>"
    and "documents w productCollection \<noteq> [] \<Longrightarrow>
           fst (getAllProducts w) =
             \<lparr>status = 200,
              body = JSON (JArray (map (marshal_M \<circ> Decode_M) (documents w productCollection)))\<rparr>"
    and "documents w orderCollection \<noteq> [] \<Longrightarrow>
           fst (getAllOrders w) =
             \<lparr>status = 200,
              body = JSON (JArray (map (marshal_M \<circ> Decode_M) (documents w orderCollection)))\<rparr>"
proof -
  have *: "fst (case Find c w of
        (Inl err, w1) \<Rightarrow> (Status_SendString 500 (Error err), w1)
      | (Inr cursor, w1) \<Rightarrow>
          (case All cursor None w1 of
             ((Some err, rs), w2) \<Rightarrow> (Status_SendString 500 (Error err), Close cursor w2)
           | ((None, rs), w2) \<Rightarrow> (c_JSON (marshal_slice_M rs), Close cursor w2)))
      = \<lparr>status = 200, body = JSON (JArray (map (marshal_M \<circ> Decode_M) (documents w c)))\<rparr>"
    if "documents w c \<noteq> []" for c
    using assms that
    by (cases "documents w c")
       (simp_all add: Find_def All_def no_failure_def marshal_slice_M_def c_JSON_def)
  show "documents w customerCollection \<noteq> [] \<Longrightarrow>
           fst (getAllCustomers w) =
             \<lparr>status = 200,
              body = JSON (JArray (map (marshal_M \<circ> Decode_M) (documents w customerCollection)))\<rparr>"
    using * [of customerCollection] by (simp add: getAllCustomers_def)
  show "documents w productCollection \<noteq> [] \<Longrightarrow>
           fst (getAllProducts w) =
             \<lparr>status = 200,
              body = JSON (JArray (map (marshal_M \<circ> Decode_M) (documents w productCollection)))\<rparr>"
    using * [of productCollection] by (simp add: getAllProducts_def)
  show "documents w orderCollection \<noteq> [] \<Longrightarrow>
           fst (getAllOrders w) =
             \<lparr>status = 200,
              body = JSON (JArray (map (marshal_M \<circ> Decode_M) (documents w orderCollection)))\<rparr>"
    using * [of orderCollection] by (simp add: getAllOrders_def)
qed

text \<open>The errors listFields does turn into a 500: those of \<open>ListCollectionNames\<close>,
  of \<open>Find\<close> and of \<open>Decode\<close>. The loop stops at the failing call.\<close>

lemma listFields_ListCollectionNames_error:
  assumes "failing w ListCollectionNamesCall = Some e"
  shows "listFields ord w =
           (\<lparr>status = 500, body = SendString (Error e)\<rparr>, record_call ListCollectionNamesCall w)"
  using assms by (simp add: listFields_def ListCollectionNames_def Status_SendString_def)

lemma listFields_loop_Find_error:
  assumes "failing w (FindCall c) = Some e"
  shows "listFields_loop ord (c # cs) flds deferred w =
           (Inl e, deferred, record_call (FindCall c) w)"
  using assms by (simp add: Find_def)

lemma listFields_loop_Decode_error:
  assumes "failing w (FindCall c) = None" and "failing w (NextCall c) = None"
    and "documents w c \<noteq> []" and "failing w (DecodeCall c) = Some e"
  shows "fst (listFields_loop ord (c # cs) flds deferred w) = Inl e"
  using assms by (cases "documents w c") (simp_all add: Find_def Next_def Decode_def)

section \<open>Repeating a request\<close>

lemma failing_Close [simp]: "failing (Close cur w) = failing w"
  by (simp add: Close_def)

lemma failing_run_deferred [simp]: "failing (run_deferred ds w) = failing w"
  unfolding run_deferred_def by (induction ds arbitrary: w) simp_all

lemma failing_getByID: "failing (snd (getByID c entity ident w)) = failing w"
  by (auto simp: getByID_def split: option.splits prod.splits sum.splits
      dest!: FindOne_Decode_world)

lemma failing_getAllCustomers: "failing (snd (getAllCustomers w)) = failing w"
  by (auto simp: getAllCustomers_def split: option.splits prod.splits sum.splits
      dest!: Find_world All_world)

lemma failing_getAllProducts: "failing (snd (getAllProducts w)) = failing w"
  by (auto simp: getAllProducts_def split: option.splits prod.splits sum.splits
      dest!: Find_world All_world)

lemma failing_getAllOrders: "failing (snd (getAllOrders w)) = failing w"
  by (auto simp: getAllOrders_def split: option.splits prod.splits sum.splits
      dest!: Find_world All_world)

lemma failing_listFields_loop:
  "failing (snd (snd (listFields_loop ord cs flds ds w))) = failing w"
proof (induction cs arbitrary: flds ds w)
  case Nil
  then show ?case by simp
next
  case (Cons c cs)
  obtain r1 w1 where f: "Find c w = (r1, w1)" by (cases "Find c w")
  then have s1: "failing w1 = failing w" using snd_Find [of c w] by simp
  show ?case
  proof (cases r1)
    case (Inl e)
    with f s1 show ?thesis by simp
  next
    case (Inr cur)
    obtain b cur' w2 where n: "Next cur w1 = ((b, cur'), w2)" by (cases "Next cur w1") auto
    then have s2: "failing w2 = failing w" using snd_Next [of cur w1] s1 by simp
    show ?thesis
    proof (cases b)
      case False
      with f Inr n s2 Cons.IH show ?thesis by simp
    next
      case True
      obtain r3 w3 where d: "Decode cur' w2 = (r3, w3)" by (cases "Decode cur' w2")
      then have s3: "failing w3 = failing w" using snd_Decode [of cur' w2] s2 by simp
      show ?thesis
        using f Inr n True d s3 Cons.IH by (cases r3) simp_all
    qed
  qed
qed

lemma failing_listFields: "failing (snd (listFields ord w)) = failing w"
proof -
  obtain r1 w1 where l: "ListCollectionNames w = (r1, w1)" by (cases "ListCollectionNames w")
  then have s1: "failing w1 = failing w" using snd_ListCollectionNames [of w] by simp
  show ?thesis
  proof (cases r1)
    case (Inl e)
    with l s1 show ?thesis by (simp add: listFields_def)
  next
    case (Inr cs)
    obtain r ds w2 where lp: "listFields_loop ord cs Map.empty [] w1 = (r, ds, w2)"
      by (cases "listFields_loop ord cs Map.empty [] w1") auto
    then have "failing w2 = failing w"
      using failing_listFields_loop [of ord cs Map.empty "[]" w1] s1 by simp
    with l Inr lp show ?thesis
      by (cases r) (simp_all add: listFields_def)
  qed
qed

lemma failing_serve: "failing (snd (serve ord req w)) = failing w"
  by (cases req)
     (simp_all add: failing_listFields failing_getAllCustomers failing_getAllProducts
        failing_getAllOrders failing_getByID getCustomerByID_getByID getProductByID_getByID
        getOrderByID_getByID)

lemma store_serve: "store (snd (serve ord req w)) = store w"
  by (cases req)
     (simp_all add: store_listFields store_getAllCustomers store_getAllProducts
        store_getAllOrders store_getByID getCustomerByID_getByID getProductByID_getByID
        getOrderByID_getByID)

text \<open>A response depends on the contents of the database and on the failing calls
  only, not on the log.\<close>

lemma documents_cong: "store w' = store w \<Longrightarrow> documents w' = documents w"
  by (simp add: documents_def fun_eq_iff)

lemma fst_getByID_cong:
  assumes "store w' = store w" and "failing w' = failing w"
  shows "fst (getByID c entity ident w') = fst (getByID c entity ident w)"
  using assms documents_cong [OF assms(1)]
  by (auto simp: getByID_def FindOne_Decode_def split: option.splits list.splits)

lemma fst_getAllCustomers_cong:
  assumes "store w' = store w" and "failing w' = failing w"
  shows "fst (getAllCustomers w') = fst (getAllCustomers w)"
  using assms documents_cong [OF assms(1)]
  by (auto simp: getAllCustomers_def Find_def All_def split: option.splits list.splits)

lemma fst_getAllProducts_cong:
  assumes "store w' = store w" and "failing w' = failing w"
  shows "fst (getAllProducts w') = fst (getAllProducts w)"
  using assms documents_cong [OF assms(1)]
  by (auto simp: getAllProducts_def Find_def All_def split: option.splits list.splits)

lemma fst_getAllOrders_cong:
  assumes "store w' = store w" and "failing w' = failing w"
  shows "fst (getAllOrders w') = fst (getAllOrders w)"
  using assms documents_cong [OF assms(1)]
  by (auto simp: getAllOrders_def Find_def All_def split: option.splits list.splits)

lemma same_listing_step:
  assumes "same_listing f g" and "mset ks1 = mset ks2"
  shows "same_listing (foldl (append_field c) f ks1) (foldl (append_field c) g ks2)"
proof -
  from assms(2) have e: "ks1 = [] \<longleftrightarrow> ks2 = []"
    by (metis mset_zero_iff)
  from assms(1) have c: "rel_option (\<lambda>xs ys. mset xs = mset ys) (f c) (g c)"
    by (simp add: same_listing_def)
  show ?thesis
  proof (cases "ks1 = []")
    case True
    with e assms(1) show ?thesis by (simp add: foldl_append_field)
  next
    case False
    with e have "ks2 \<noteq> []" by simp
    with False assms c show ?thesis
      by (cases "f c"; cases "g c") (auto simp: foldl_append_field same_listing_def)
  qed
qed

lemma listFields_loop_rel:
  assumes "permutes_keys o1" and "permutes_keys o2"
    and "store w' = store w" and "failing w' = failing w" and "same_listing f g"
  shows "rel_sum (=) same_listing
           (fst (listFields_loop o1 cs f d w)) (fst (listFields_loop o2 cs g d' w'))"
  using assms(3-5)
proof (induction cs arbitrary: f g d d' w w')
  case Nil
  then show ?case by simp
next
  case (Cons c cs)
  note docs = documents_cong [OF Cons.prems(1)]
  show ?case
  proof (cases "failing w (FindCall c)")
    case (Some e)
    with Cons.prems show ?thesis by (simp add: Find_def)
  next
    case fnone: None
    show ?thesis
    proof (cases "failing w (NextCall c) = None \<and> documents w c \<noteq> []")
      case False
      then show ?thesis
        using fnone Cons.prems docs
        by (auto simp: Find_def Next_def split: option.splits list.splits intro!: Cons.IH)
    next
      case True
      then obtain doc ds where ds: "documents w c = doc # ds" by (cases "documents w c") auto
      show ?thesis
      proof (cases "failing w (DecodeCall c)")
        case (Some e)
        with fnone True ds Cons.prems docs show ?thesis
          by (simp add: Find_def Next_def Decode_def)
      next
        case None
        have "same_listing (foldl (append_field c) f (range_keys o1 c (Decode_M doc)))
                (foldl (append_field c) g (range_keys o2 c (Decode_M doc)))"
          using Cons.prems(3) range_keys_mset [OF assms(1,2)] by (rule same_listing_step)
        with None fnone True ds Cons.prems docs show ?thesis
          by (auto simp: Find_def Next_def Decode_def intro!: Cons.IH)
      qed
    qed
  qed
qed

lemma same_listing_empty: "same_listing Map.empty Map.empty"
  by (simp add: same_listing_def)

lemma same_listing_bodies:
  assumes "same_listing f g"
  shows "same_up_to_field_order (JSON (marshal_fields f)) (JSON (marshal_fields g))"
proof -
  have "same_elements (map_option (\<lambda>ks. JArray (map JString ks)) (f c))
          (map_option (\<lambda>ks. JArray (map JString ks)) (g c))" for c
  proof -
    from assms have r: "rel_option (\<lambda>xs ys. mset xs = mset ys) (f c) (g c)"
      by (simp add: same_listing_def)
    show ?thesis
    proof (cases "f c")
      case None
      with r show ?thesis by (cases "g c") (simp_all add: same_elements_def)
    next
      case (Some xs)
      with r obtain ys where "g c = Some ys" and "mset xs = mset ys"
        by (cases "g c") simp_all
      with Some show ?thesis
        by (simp add: same_elements_def)
    qed
  qed
  then show ?thesis
    by (simp add: same_up_to_field_order_def marshal_fields_def)
qed

lemma listFields_rel:
  assumes "permutes_keys o1" and "permutes_keys o2"
    and "store w' = store w" and "failing w' = failing w"
  shows "status (fst (listFields o2 w')) = status (fst (listFields o1 w))
       \<and> same_up_to_field_order (body (fst (listFields o1 w))) (body (fst (listFields o2 w')))"
proof (cases "failing w ListCollectionNamesCall")
  case (Some e)
  with assms(3,4) show ?thesis
    by (simp add: listFields_def ListCollectionNames_def Status_SendString_def
        same_up_to_field_order_def)
next
  case None
  let ?cs = "map fst (store w)"
  let ?w1 = "record_call ListCollectionNamesCall w"
  let ?w1' = "record_call ListCollectionNamesCall w'"
  have n1: "ListCollectionNames w = (Inr ?cs, ?w1)"
    using None by (simp add: ListCollectionNames_def)
  have n2: "ListCollectionNames w' = (Inr ?cs, ?w1')"
    using None assms(3,4) by (simp add: ListCollectionNames_def)
  obtain r1 d1 v1 where l1: "listFields_loop o1 ?cs Map.empty [] ?w1 = (r1, d1, v1)"
    by (cases "listFields_loop o1 ?cs Map.empty [] ?w1") auto
  obtain r2 d2 v2 where l2: "listFields_loop o2 ?cs Map.empty [] ?w1' = (r2, d2, v2)"
    by (cases "listFields_loop o2 ?cs Map.empty [] ?w1'") auto
  have "rel_sum (=) same_listing
          (fst (listFields_loop o1 ?cs Map.empty [] ?w1))
          (fst (listFields_loop o2 ?cs Map.empty [] ?w1'))"
    using assms by (intro listFields_loop_rel) (simp_all add: same_listing_empty)
  then have rel: "rel_sum (=) same_listing r1 r2"
    using l1 l2 by simp
  show ?thesis
  proof (cases r1)
    case (Inl e)
    with rel have "r2 = Inl e" by (cases r2) simp_all
    with Inl n1 n2 l1 l2 show ?thesis
      by (simp add: listFields_def Status_SendString_def same_up_to_field_order_def)
  next
    case (Inr f)
    with rel obtain g where g: "r2 = Inr g" and fg: "same_listing f g"
      by (cases r2) simp_all
    with Inr n1 n2 l1 l2 same_listing_bodies [OF fg] show ?thesis
      by (simp add: listFields_def c_JSON_def)
  qed
qed

lemma marshal_fields_differ:
  "marshal_fields [''customers'' \<mapsto> [''name'', ''_id'']] \<noteq> marshal_fields [''customers'' \<mapsto> [''_id'', ''name'']]"
proof
  assume "marshal_fields [''customers'' \<mapsto> [''name'', ''_id'']] = marshal_fields [''customers'' \<mapsto> [''_id'', ''name'']]"
  then have "(map_option (\<lambda>ks. JArray (map JString ks)) \<circ> [''customers'' \<mapsto> [''name'', ''_id'']]) ''customers''
           = (map_option (\<lambda>ks. JArray (map JString ks)) \<circ> [''customers'' \<mapsto> [''_id'', ''name'']]) ''customers''"
    by (simp only: marshal_fields_def json.inject)
  then show False by simp
qed

lemma listFields_reversed_again:
  "fst (listFields reversed (snd (listFields as_held scenario)))
     = \<lparr>status = 200, body = JSON (marshal_fields [''customers'' \<mapsto> [''name'', ''_id'']])\<rparr>"
  by (simp add: listFields_def ListCollectionNames_def scenario_def no_failure_def Find_def
      Next_def Decode_def documents_def record_call_def alice_def Decode_M_def range_keys_def
      reversed_def as_held_def append_field_def c_JSON_def run_deferred_def Close_def)

section \<open>The claims\<close>

text \<open>
  Claim C1. When the path parameter is not a 24-hex-character identifier, each of the
  three Get-by-ID handlers answers 400 with the body "Invalid ID format" and returns the
  world it was given: no driver call is logged, the database is not reached.
\<close>

theorem invalid_id_400:
  assumes "\<not> valid_hex24 ident"
  shows "getCustomerByID ident w = (\<lparr>status = 400, body = SendString ''Invalid ID format''\<rparr>, w)
       \<and> getProductByID ident w = (\<lparr>status = 400, body = SendString ''Invalid ID format''\<rparr>, w)
       \<and> getOrderByID ident w = (\<lparr>status = 400, body = SendString ''Invalid ID format''\<rparr>, w)"
proof -
  from assms have "ObjectIDFromHex ident = None"
    by (simp add: ObjectIDFromHex_None_iff)
  then show ?thesis
    by (simp add: getCustomerByID_def getProductByID_def getOrderByID_def Status_SendString_def)
qed

theorem invalid_id_400_witness:
  "\<not> valid_hex24 ''not-an-id''
   \<and> getCustomerByID ''not-an-id'' scenario = (\<lparr>status = 400, body = SendString ''Invalid ID format''\<rparr>, scenario)
   \<and> getProductByID ''not-an-id'' scenario = (\<lparr>status = 400, body = SendString ''Invalid ID format''\<rparr>, scenario)
   \<and> getOrderByID ''not-an-id'' scenario = (\<lparr>status = 400, body = SendString ''Invalid ID format''\<rparr>, scenario)"
proof -
  have h: "\<not> valid_hex24 ''not-an-id''"
    by (simp add: valid_hex24_def)
  show ?thesis
    using h invalid_id_400 [OF h, of scenario] by simp
qed

text \<open>
  Claim C2, at the input where the code departs from it. The claim: a list handler
  whose find succeeds answers 200 with a JSON array of all documents, the empty array
  when there are none. The handler declares its slice without a value (\<open>nil\<close>),
  \<open>cursor.All\<close> leaves it \<open>nil\<close> when the collection holds no document, and the
  encoder writes \<open>null\<close>: the body is not the empty array. (For a collection with
  documents the body is the array of all of them, lemma \<open>getAll_documents\<close>.)
\<close>

theorem getAll_no_documents:
  "fst (getAllCustomers no_documents) = \<lparr>status = 200, body = JSON JNull\<rparr>
   \<and> fst (getAllProducts no_documents) = \<lparr>status = 200, body = JSON JNull\<rparr>
   \<and> fst (getAllOrders no_documents) = \<lparr>status = 200, body = JSON JNull\<rparr>
   \<and> fst (getAllCustomers no_documents) \<noteq> \<lparr>status = 200, body = JSON (JArray [])\<rparr>"
  by (simp add: getAllCustomers_def getAllProducts_def getAllOrders_def Find_def All_def
      no_documents_def no_failure_def documents_def customerCollection_def
      productCollection_def orderCollection_def record_call_def marshal_slice_M_def c_JSON_def)

text \<open>
  Claim C3. When no driver call fails, ListFields answers 200 with a listing in which
  every collection holding a document is mapped to the field names of its first document
  (each name once, in the order the runtime chose), and every collection without a
  document, like every name that is no collection, has no entry. The database is
  well formed: collection names are unique and every document has an \<open>_id\<close>.
\<close>

theorem listFields_listing:
  assumes "failing w = no_failure" and "well_formed (store w)" and "permutes_keys ord"
  shows "\<exists>flds. fst (listFields ord w) = \<lparr>status = 200, body = JSON (marshal_fields flds)\<rparr>
           \<and> (\<forall>c. case documents w c of
                     [] \<Rightarrow> flds c = None
                   | d # _ \<Rightarrow> (\<exists>ks. flds c = Some ks \<and> distinct ks \<and> set ks = fst ` set d))"
proof -
  let ?w1 = "record_call ListCollectionNamesCall w"
  let ?cs = "map fst (store w)"
  let ?flds = "\<lambda>c. if c \<in> set ?cs
                     then (case documents ?w1 c of
                             [] \<Rightarrow> None
                           | d # _ \<Rightarrow> Some (range_keys ord c (Decode_M d)))
                     else None"
  have names: "ListCollectionNames w = (Inr ?cs, ?w1)"
    using assms(1) by (simp add: ListCollectionNames_def no_failure_def)
  have nonempty: "\<forall>c\<in>set ?cs. \<forall>d ds. documents ?w1 c = d # ds \<longrightarrow> range_keys ord c (Decode_M d) \<noteq> []"
  proof (intro ballI allI impI)
    fix c d ds
    assume "documents ?w1 c = d # ds"
    then have "''_id'' \<in> fst ` set d"
      using well_formed_first_document [OF assms(2), of c d ds] by simp
    then have "''_id'' \<in> set (range_keys ord c (Decode_M d))"
      by (simp add: range_keys_set [OF assms(3)] keys_Decode_M)
    then show "range_keys ord c (Decode_M d) \<noteq> []" by auto
  qed
  have loop: "fst (listFields_loop ord ?cs Map.empty [] ?w1) = Inr ?flds"
    using assms(1,2) nonempty
    by (subst listFields_loop_no_failure) (simp_all add: well_formed_def)
  have resp: "fst (listFields ord w) = \<lparr>status = 200, body = JSON (marshal_fields ?flds)\<rparr>"
    using names loop
    by (cases "listFields_loop ord ?cs Map.empty [] ?w1")
       (simp add: listFields_def c_JSON_def)
  have listing: "case documents w c of
                     [] \<Rightarrow> ?flds c = None
                   | d # _ \<Rightarrow> (\<exists>ks. ?flds c = Some ks \<and> distinct ks \<and> set ks = fst ` set d)" for c
  proof (cases "documents w c")
    case Nil
    then show ?thesis by simp
  next
    case (Cons d ds)
    then have "c \<in> set ?cs"
      using documents_outside_store [of c w] by auto
    with Cons show ?thesis
      by (simp add: range_keys_set [OF assms(3)] range_keys_distinct [OF assms(3)]
          keys_Decode_M distinct_Decode_M)
  qed
  show ?thesis
    using resp listing by blast
qed

theorem listFields_listing_witness:
  "failing scenario = no_failure \<and> well_formed (store scenario) \<and> permutes_keys reversed
   \<and> (\<exists>flds. fst (listFields reversed scenario) = \<lparr>status = 200, body = JSON (marshal_fields flds)\<rparr>
           \<and> (\<forall>c. case documents scenario c of
                     [] \<Rightarrow> flds c = None
                   | d # _ \<Rightarrow> (\<exists>ks. flds c = Some ks \<and> distinct ks \<and> set ks = fst ` set d)))"
  using listFields_listing [OF failing_scenario well_formed_scenario permutes_keys_reversed]
    failing_scenario well_formed_scenario permutes_keys_reversed
  by simp

text \<open>
  Claim C4. For a valid identifier that no document of the collection carries, and a
  lookup that does not fail, each Get-by-ID handler answers 404 with the message of its
  collection.
\<close>

theorem unknown_id_404:
  assumes "valid_hex24 ident" and "ObjectIDFromHex ident = Some oid"
  shows "(failing w (FindOneCall customerCollection oid) = None
          \<and> list_all (\<lambda>d. \<not> matches_id oid d) (documents w customerCollection)
          \<longrightarrow> fst (getCustomerByID ident w) = \<lparr>status = 404, body = SendString ''Customer not found''\<rparr>)
       \<and> (failing w (FindOneCall productCollection oid) = None
          \<and> list_all (\<lambda>d. \<not> matches_id oid d) (documents w productCollection)
          \<longrightarrow> fst (getProductByID ident w) = \<lparr>status = 404, body = SendString ''Product not found''\<rparr>)
       \<and> (failing w (FindOneCall orderCollection oid) = None
          \<and> list_all (\<lambda>d. \<not> matches_id oid d) (documents w orderCollection)
          \<longrightarrow> fst (getOrderByID ident w) = \<lparr>status = 404, body = SendString ''Order not found''\<rparr>)"
  using getByID_not_found [OF assms(2) FindOne_Decode_no_match, of w]
  by (simp add: getCustomerByID_getByID getProductByID_getByID getOrderByID_getByID
      capitalize_entities)

theorem unknown_id_404_witness:
  "valid_hex24 ''507f1f77bcf86cd799439099''
   \<and> fst (getCustomerByID ''507f1f77bcf86cd799439099'' scenario) = \<lparr>status = 404, body = SendString ''Customer not found''\<rparr>
   \<and> fst (getProductByID ''507f1f77bcf86cd799439099'' scenario) = \<lparr>status = 404, body = SendString ''Product not found''\<rparr>
   \<and> fst (getOrderByID ''507f1f77bcf86cd799439099'' scenario) = \<lparr>status = 404, body = SendString ''Order not found''\<rparr>"
  using unknown_id_404 [OF valid_hex24_absent ObjectIDFromHex_absent, of scenario]
  by (simp add: valid_hex24_absent scenario_def no_failure_def documents_def customerCollection_def
      productCollection_def orderCollection_def matches_id_def alice_def alice_id_def)

text \<open>
  Claim C5, as the code has it. Repeating a request on the database the first
  execution left, with the same failing calls, gives the same status; for every endpoint
  but /api/fields the same body; and for /api/fields two bodies that are the same error
  text or are objects with the same collections and, for each, the same field names up
  to their order. The order is that of a Go \<open>range\<close> over a map, which the runtime
  chooses per execution (\<open>ord1\<close>, \<open>ord2\<close>).
\<close>

theorem repeat_same_up_to_field_order:
  assumes "permutes_keys ord1" and "permutes_keys ord2"
  shows "status (fst (serve ord2 req (snd (serve ord1 req w)))) = status (fst (serve ord1 req w))
       \<and> (if req = GET_fields
          then same_up_to_field_order (body (fst (serve ord1 req w)))
                 (body (fst (serve ord2 req (snd (serve ord1 req w)))))
          else body (fst (serve ord2 req (snd (serve ord1 req w)))) = body (fst (serve ord1 req w)))"
proof -
  let ?w1 = "snd (serve ord1 req w)"
  have s: "store ?w1 = store w" and f: "failing ?w1 = failing w"
    by (rule store_serve, rule failing_serve)
  show ?thesis
  proof (cases req)
    case GET_fields
    then show ?thesis
      using listFields_rel [OF assms s f] by simp
  next
    case GET_customers
    then show ?thesis using fst_getAllCustomers_cong [OF s f] by simp
  next
    case (GET_customer x3)
    then show ?thesis using fst_getByID_cong [OF s f] by (simp add: getCustomerByID_getByID)
  next
    case GET_products
    then show ?thesis using fst_getAllProducts_cong [OF s f] by simp
  next
    case (GET_product x5)
    then show ?thesis using fst_getByID_cong [OF s f] by (simp add: getProductByID_getByID)
  next
    case GET_orders
    then show ?thesis using fst_getAllOrders_cong [OF s f] by simp
  next
    case (GET_order x7)
    then show ?thesis using fst_getByID_cong [OF s f] by (simp add: getOrderByID_getByID)
  qed
qed

theorem repeat_same_up_to_field_order_witness:
  "permutes_keys as_held \<and> permutes_keys reversed
   \<and> status (fst (serve reversed GET_fields (snd (serve as_held GET_fields scenario))))
       = status (fst (serve as_held GET_fields scenario))
   \<and> same_up_to_field_order (body (fst (serve as_held GET_fields scenario)))
        (body (fst (serve reversed GET_fields (snd (serve as_held GET_fields scenario)))))
   \<and> body (fst (serve reversed GET_customers (snd (serve as_held GET_customers scenario))))
       = body (fst (serve as_held GET_customers scenario))"
  using repeat_same_up_to_field_order [OF permutes_keys_as_held permutes_keys_reversed,
      of GET_fields scenario]
    repeat_same_up_to_field_order [OF permutes_keys_as_held permutes_keys_reversed,
      of GET_customers scenario]
    permutes_keys_as_held permutes_keys_reversed
  by simp

text \<open>
  Claim C5 as stated fails for /api/fields: on the scenario database, unchanged by the
  first execution, a second execution in which the runtime ranges over the document's
  keys in another order answers with another body.
\<close>

theorem repeat_counterexample:
  "permutes_keys as_held \<and> permutes_keys reversed
   \<and> store (snd (serve as_held GET_fields scenario)) = store scenario
   \<and> body (fst (serve reversed GET_fields (snd (serve as_held GET_fields scenario))))
       \<noteq> body (fst (serve as_held GET_fields scenario))"
  by (simp add: store_listFields listFields_reversed_again listFields_scenario_as_held
      marshal_fields_differ permutes_keys_as_held permutes_keys_reversed)

text \<open>
  Claim C6. When the lookup of a parsed identifier fails with an error other than
  \<open>ErrNoDocuments\<close>, each Get-by-ID handler answers 500 with
  "Error finding <entity>: " followed by the text of the error.
\<close>

theorem lookup_error_500:
  assumes "ObjectIDFromHex ident = Some oid" and "e \<noteq> ErrNoDocuments"
  shows "(fst (FindOne_Decode customerCollection oid w) = Inl e
          \<longrightarrow> fst (getCustomerByID ident w) = \<lparr>status = 500, body = SendString (''Error finding customer: '' @ Error e)\<rparr>)
       \<and> (fst (FindOne_Decode productCollection oid w) = Inl e
          \<longrightarrow> fst (getProductByID ident w) = \<lparr>status = 500, body = SendString (''Error finding product: '' @ Error e)\<rparr>)
       \<and> (fst (FindOne_Decode orderCollection oid w) = Inl e
          \<longrightarrow> fst (getOrderByID ident w) = \<lparr>status = 500, body = SendString (''Error finding order: '' @ Error e)\<rparr>)"
  using getByID_other_error [OF assms(1) _ assms(2), of _ w]
  by (simp add: getCustomerByID_getByID getProductByID_getByID getOrderByID_getByID)

theorem lookup_error_500_witness:
  "fst (getCustomerByID ''507f1f77bcf86cd799439011'' scenario_FindOne_fails)
     = \<lparr>status = 500, body = SendString ''Error finding customer: connection reset''\<rparr>
   \<and> fst (getProductByID ''507f1f77bcf86cd799439011'' scenario_FindOne_fails)
     = \<lparr>status = 500, body = SendString ''Error finding product: connection reset''\<rparr>
   \<and> fst (getOrderByID ''507f1f77bcf86cd799439011'' scenario_FindOne_fails)
     = \<lparr>status = 500, body = SendString ''Error finding order: connection reset''\<rparr>"
  using lookup_error_500 [OF ObjectIDFromHex_alice, of "DriverError ''connection reset''" scenario_FindOne_fails]
  by (simp add: FindOne_Decode_def scenario_FindOne_fails_def scenario_def FindOne_fails_def)

text \<open>
  Claim C7, at the input where the code departs from it. The claim: any database error
  during ListFields aborts the request with 500 and the error text. When \<open>Next\<close>
  fails, it returns false and keeps the error in the cursor; the handler never reads
  \<open>cursor.Err()\<close>, takes the collection for empty and answers 200.
\<close>

theorem listFields_Next_error:
  "failing scenario_Next_fails (NextCall ''customers'') = Some (DriverError ''connection reset'')
   \<and> fst (listFields as_held scenario_Next_fails)
       = \<lparr>status = 200, body = JSON (marshal_fields Map.empty)\<rparr>"
  by (simp add: listFields_def ListCollectionNames_def scenario_Next_fails_def scenario_def
      Next_fails_def Find_def Next_def documents_def record_call_def c_JSON_def)

text \<open>
  Claim C8. Whatever the request, the handler serving it returns the contents of the
  database as it found them.
\<close>

theorem handlers_preserve_store: "store (snd (serve ord req w)) = store w"
  by (cases req)
     (simp_all add: store_listFields store_getAllCustomers store_getAllProducts
        store_getAllOrders store_getByID getCustomerByID_getByID getProductByID_getByID
        getOrderByID_getByID)

text \<open>
  Claim C9. When the \<open>.env\<close> file cannot be read, or \<open>MONGODB_URL\<close> is unset or
  empty once the file is loaded, \<open>main\<close> ends with exit status 1 without
  connecting to the database and without the call of \<open>Listen\<close> that binds the
  port and runs the handlers.
\<close>

theorem startup_fatal:
  assumes "env_file s = None
           \<or> (\<exists>kvs. env_file s = Some kvs \<and> GetMongoDB_URL (godotenv_Load kvs (environ s)) = [])"
  shows "snd (main s) = 1 \<and> (\<forall>addr. Listen addr \<notin> set (fst (main s)))
         \<and> (\<forall>uri. Connect uri \<notin> set (fst (main s)))"
  using assms
  by (auto simp: main_def LoadEnv_def Let_def split: option.splits sum.splits)

theorem startup_fatal_witness:
  "env_file startup_no_file = None
   \<and> snd (main startup_no_file) = 1 \<and> Listen '':8090'' \<notin> set (fst (main startup_no_file))
   \<and> env_file startup_no_url = Some [(''PORT'', ''8090'')]
   \<and> GetMongoDB_URL (godotenv_Load [(''PORT'', ''8090'')] (environ startup_no_url)) = []
   \<and> snd (main startup_no_url) = 1 \<and> Listen '':8090'' \<notin> set (fst (main startup_no_url))"
proof -
  have a: "env_file startup_no_file = None"
    by (simp add: startup_no_file_def)
  have b: "env_file startup_no_url = Some [(''PORT'', ''8090'')]"
    by (simp add: startup_no_url_def)
  have c: "GetMongoDB_URL (godotenv_Load [(''PORT'', ''8090'')] (environ startup_no_url)) = []"
    by (simp add: startup_no_url_def GetMongoDB_URL_def godotenv_Load_def Getenv_def)
  show ?thesis
    using a b c startup_fatal [of startup_no_file] startup_fatal [of startup_no_url]
    by simp
qed

text \<open>
  Claim C10. The three Get-by-ID handlers are the one handler \<open>getByID\<close>, applied to
  their collection and their entity name.
\<close>

theorem getByID_instances:
  "getCustomerByID = getByID customerCollection ''customer''
   \<and> getProductByID = getByID productCollection ''product''
   \<and> getOrderByID = getByID orderCollection ''order''"
  by (simp add: getCustomerByID_getByID getProductByID_getByID getOrderByID_getByID)

end
